theory Spec2Isabelle
  imports Complex_Main "HOL-Library.Char_ord" "HOL-Library.List_Lexorder" "HOL-Library.Log_Nat"
    "HOL-Library.Word"
begin

section \<open>Lead intelligence demo: the live scoring block\<close>

text \<open>
  The source is \<^verbatim>\<open>lead_intelligence_demo.py\<close>. Python strings are modelled as
  \<^typ>\<open>string\<close>, one list element for one character of the Python string (which is
  what \<^verbatim>\<open>len\<close> counts); every literal the script compares against is ASCII. The
  test \<^verbatim>\<open>sub in s\<close> on two strings is substring containment.
\<close>

fun str_startswith :: "string \<Rightarrow> string \<Rightarrow> bool" where
  "str_startswith s [] = True"
| "str_startswith [] (p # ps) = False"
| "str_startswith (c # cs) (p # ps) = (c = p \<and> str_startswith cs ps)"

text \<open>\<^verbatim>\<open>sub in s\<close>: some suffix of \<open>s\<close> starts with \<open>sub\<close>.\<close>

fun str_contains :: "string \<Rightarrow> string \<Rightarrow> bool" where
  "str_contains [] sub = str_startswith [] sub"
| "str_contains (c # cs) sub = (str_startswith (c # cs) sub \<or> str_contains cs sub)"

text \<open>
  The static fixture \<^verbatim>\<open>demo_leads\<close> (lines 55-60): a list of dictionaries with the
  same seven keys each.
\<close>

record demo_lead =
  name :: string
  email :: string
  company :: string
  manual_score :: string
  ai_score :: int
  insights :: string
  time_saved :: string

definition demo_leads :: "demo_lead list" where
  "demo_leads =
    [\<lparr>name = ''John Smith'', email = ''john@techcorp.com'', company = ''TechCorp'',
      manual_score = ''Unknown'', ai_score = 85,
      insights = ''High-value prospect from tech company'', time_saved = ''8 minutes''\<rparr>,
     \<lparr>name = ''Jane Doe'', email = ''jane@gmail.com'', company = '''',
      manual_score = ''Unknown'', ai_score = 25,
      insights = ''Personal email, no company info'', time_saved = ''5 minutes''\<rparr>,
     \<lparr>name = ''Mike Johnson'', email = ''mike@enterprise-solutions.com'',
      company = ''Enterprise Solutions Inc'',
      manual_score = ''Unknown'', ai_score = 92,
      insights = ''Enterprise company, decision maker likely'', time_saved = ''12 minutes''\<rparr>,
     \<lparr>name = ''Sarah Wilson'', email = ''sarah@startup.io'', company = ''InnovateStartup'',
      manual_score = ''Unknown'', ai_score = 70,
      insights = ''Startup, good potential but limited budget'', time_saved = ''6 minutes''\<rparr>]"

text \<open>
  The script keeps the result of the last analysis in \<^verbatim>\<open>st.session_state\<close>, under the
  attributes \<^verbatim>\<open>demo_score\<close> and \<^verbatim>\<open>demo_insights\<close>; an attribute that was never
  set is \<open>None\<close> here (\<^verbatim>\<open>hasattr\<close> is false).
\<close>

record session_state =
  demo_score :: "int option"
  demo_insights :: "string option"

definition fresh_session :: session_state where
  "fresh_session = \<lparr>demo_score = None, demo_insights = None\<rparr>"

text \<open>
  The body of \<^verbatim>\<open>if st.button("Analyze Lead")\<close> (lines 126-138). The three arguments
  are the text inputs \<^verbatim>\<open>demo_name\<close>, \<^verbatim>\<open>demo_email\<close> and \<^verbatim>\<open>demo_company\<close>;
  the name is read and never used. A string is truthy when it is not empty.
\<close>

definition analyze_lead :: "string \<Rightarrow> string \<Rightarrow> string \<Rightarrow> session_state \<Rightarrow> session_state" where
  "analyze_lead demo_name demo_email demo_company st =
    (if str_contains demo_email ''@gmail.com'' \<or> str_contains demo_email ''@yahoo.com''
     then st\<lparr>demo_score := Some 30,
              demo_insights := Some ''Personal email domain suggests lower business intent''\<rparr>
     else if demo_company \<noteq> [] \<and> length demo_company > 5
     then st\<lparr>demo_score := Some 85,
              demo_insights := Some ''Professional company email and established business''\<rparr>
     else st\<lparr>demo_score := Some 50,
              demo_insights := Some ''Moderate potential, needs further qualification''\<rparr>)"

text \<open>
  Failures are values. \<open>AttributeError\<close> is what Python raises on reading a session
  attribute that was never set. \<open>EmptyInputError\<close> is the error name of the
  specification's taxonomy; no statement of the source raises it, it is declared so that
  results can be compared with it.
\<close>

datatype error = AttributeError | EmptyInputError

text \<open>
  The rendering block of the results column (lines 142-159): nothing is shown while no
  score is stored; otherwise one of \<^verbatim>\<open>st.success\<close>, \<^verbatim>\<open>st.warning\<close>,
  \<^verbatim>\<open>st.error\<close> is called with the priority label followed by the stored insights.
  The leading emoji of each message is left out of the model's text.
\<close>

datatype priority = High | Medium | Low

fun priority_label :: "priority \<Rightarrow> string" where
  "priority_label High = ''High Priority: ''"
| "priority_label Medium = ''Medium Priority: ''"
| "priority_label Low = ''Low Priority: ''"

definition score_priority :: "int \<Rightarrow> priority" where
  "score_priority score = (if score \<ge> 80 then High else if score \<ge> 60 then Medium else Low)"

record analysis_result =
  shown_score :: int
  shown_priority :: priority
  shown_message :: string

definition render_results :: "session_state \<Rightarrow> error + analysis_result option" where
  "render_results st =
    (case demo_score st of
       None \<Rightarrow> Inr None
     | Some score \<Rightarrow>
         (case demo_insights st of
            None \<Rightarrow> Inl AttributeError
          | Some msg \<Rightarrow>
              Inr (Some \<lparr>shown_score = score,
                         shown_priority = score_priority score,
                         shown_message = priority_label (score_priority score) @ msg\<rparr>)))"

text \<open>
  One run of the page in mode "Live Scoring" with the button pressed, from a session
  that holds nothing yet: the analysis, then the rendering.
\<close>

definition live_scoring :: "string \<Rightarrow> string \<Rightarrow> string \<Rightarrow> error + analysis_result option" where
  "live_scoring demo_name demo_email demo_company =
     render_results (analyze_lead demo_name demo_email demo_company fresh_session)"

section \<open>Revenue dashboard: the mock data and the metrics\<close>

text \<open>
  The source is \<^verbatim>\<open>revenue_dashboard.py\<close>. A pandas DataFrame is a list of rows,
  built from the dictionary of columns the source writes. pandas stores a column of
  Python integers as 64-bit signed integers. The \<^verbatim>\<open>Amount\<close> column, which the
  dashboard adds up, is a column of 64-bit words: \<open>sint\<close> reads the signed value and
  addition wraps around. The integer columns that are only compared, or converted to
  floats, keep the integers of the literals.
\<close>

record deal =
  Company :: string
  Amount :: "64 word"
  Stage :: string
  Rep :: string
  Close_Date :: string

record customer_health =
  Customer :: string
  MRR :: int
  Health_Score :: int
  Risk_Level :: string

record revenue_month =
  Month :: string
  New_MRR :: int
  Churn_MRR :: int
  Net_MRR :: int

text \<open>\<^verbatim>\<open>load_mock_data\<close> (lines 73-99): the three frames, column by column.\<close>

definition pipeline_df :: "deal list" where
  "pipeline_df =
    map (\<lambda>(c, a, s, r, d). \<lparr>Company = c, Amount = a, Stage = s, Rep = r, Close_Date = d\<rparr>)
      (zip [''Acme Corp'', ''TechFlow'', ''DataViz Inc'', ''CloudSys'', ''InnovateCo'', ''ScaleTech'']
      (zip [25000, 45000, 15000, 35000, 60000, 20000]
      (zip [''Demo'', ''Proposal'', ''Negotiation'', ''Demo'', ''Closed Won'', ''Qualified'']
      (zip [''John'', ''Sarah'', ''Mike'', ''John'', ''Sarah'', ''Mike'']
           [''2024-02-15'', ''2024-02-20'', ''2024-02-10'', ''2024-02-25'', ''2024-01-30'',
            ''2024-02-18'']))))"

definition health_df :: "customer_health list" where
  "health_df =
    map (\<lambda>(c, m, h, r). \<lparr>Customer = c, MRR = m, Health_Score = h, Risk_Level = r\<rparr>)
      (zip [''Acme Corp'', ''TechFlow'', ''DataViz Inc'', ''CloudSys'', ''InnovateCo'']
      (zip [2500, 4200, 1800, 3200, 5500]
      (zip [85, 72, 45, 90, 88]
           [''Low'', ''Medium'', ''High'', ''Low'', ''Low''])))"

definition revenue_df :: "revenue_month list" where
  "revenue_df =
    map (\<lambda>(m, n, c, t). \<lparr>Month = m, New_MRR = n, Churn_MRR = c, Net_MRR = t\<rparr>)
      (zip [''2023-10'', ''2023-11'', ''2023-12'', ''2024-01'', ''2024-02'']
      (zip [12000, 15000, 18000, 15000, 22000]
      (zip [2000, 2500, 3000, 2000, 1500]
           [10000, 12500, 15000, 13000, 20500])))"

subsection \<open>64-bit floating point\<close>

text \<open>
  pandas computes means and ratios in IEEE 754 binary64. A float is the rational number
  it denotes, one of the two infinities, or NaN; the sign of a zero is not kept (no zero
  produced by a computation is ever a divisor here: every divisor is a converted
  integer). Each operation computes the exact result and rounds it to the nearest float,
  ties to even.

  \<open>ilog2 x\<close> is the binary exponent of a positive \<open>x\<close>: the \<open>e\<close> with
  \<open>2\<^sup>e \<le> x < 2\<^sup>e\<^sup>+\<^sup>1\<close>. \<open>rne\<close> rounds to the nearest integer, ties to even.
  \<open>round64\<close> keeps 53 significant bits, from the exponent \<open>-1022\<close> on a fixed step of
  \<open>2\<^sup>-\<^sup>1\<^sup>0\<^sup>7\<^sup>4\<close> (subnormal numbers), and gives an infinity when the rounded
  value reaches \<open>2\<^sup>1\<^sup>0\<^sup>2\<^sup>4\<close>.
\<close>

datatype fl = Num rat | PosInf | NegInf | NaN

definition ilog2 :: "rat \<Rightarrow> int" where
  "ilog2 x = (if x \<ge> 1 then bitlen \<lfloor>x\<rfloor> - 1 else - bitlen (\<lceil>1 / x\<rceil> - 1))"

definition rne :: "rat \<Rightarrow> int" where
  "rne m = (let f = \<lfloor>m\<rfloor>; d = m - of_int f
            in if d < 1 / 2 then f else if d > 1 / 2 then f + 1
               else if even f then f else f + 1)"

definition round64 :: "rat \<Rightarrow> fl" where
  "round64 x =
    (if x = 0 then Num 0
     else let e = max (ilog2 \<bar>x\<bar>) (- 1022);
              q = 2 powi (e - 52);
              y = of_int (rne (x / q)) * q
          in if \<bar>y\<bar> \<ge> 2 powi 1024 then (if x > 0 then PosInf else NegInf) else Num y)"

text \<open>
  The operations on the special values follow IEEE 754: NaN spreads, a finite non-zero
  number divided by zero is an infinity of its sign, zero divided by zero is NaN (no
  error is raised by pandas for either).
\<close>

fun fl_add :: "fl \<Rightarrow> fl \<Rightarrow> fl" where
  "fl_add NaN y = NaN"
| "fl_add x NaN = NaN"
| "fl_add (Num a) (Num b) = round64 (a + b)"
| "fl_add PosInf NegInf = NaN"
| "fl_add NegInf PosInf = NaN"
| "fl_add PosInf y = PosInf"
| "fl_add NegInf y = NegInf"
| "fl_add (Num a) y = y"

fun fl_sub :: "fl \<Rightarrow> fl \<Rightarrow> fl" where
  "fl_sub NaN y = NaN"
| "fl_sub x NaN = NaN"
| "fl_sub (Num a) (Num b) = round64 (a - b)"
| "fl_sub (Num a) PosInf = NegInf"
| "fl_sub (Num a) NegInf = PosInf"
| "fl_sub PosInf PosInf = NaN"
| "fl_sub NegInf NegInf = NaN"
| "fl_sub PosInf y = PosInf"
| "fl_sub NegInf y = NegInf"

fun fl_sign_inf :: "bool \<Rightarrow> fl" where
  "fl_sign_inf positive = (if positive then PosInf else NegInf)"

fun fl_mul :: "fl \<Rightarrow> fl \<Rightarrow> fl" where
  "fl_mul NaN y = NaN"
| "fl_mul x NaN = NaN"
| "fl_mul (Num a) (Num b) = round64 (a * b)"
| "fl_mul (Num a) PosInf = (if a = 0 then NaN else fl_sign_inf (a > 0))"
| "fl_mul (Num a) NegInf = (if a = 0 then NaN else fl_sign_inf (a < 0))"
| "fl_mul PosInf (Num b) = (if b = 0 then NaN else fl_sign_inf (b > 0))"
| "fl_mul NegInf (Num b) = (if b = 0 then NaN else fl_sign_inf (b < 0))"
| "fl_mul PosInf PosInf = PosInf"
| "fl_mul NegInf NegInf = PosInf"
| "fl_mul PosInf NegInf = NegInf"
| "fl_mul NegInf PosInf = NegInf"

fun fl_div :: "fl \<Rightarrow> fl \<Rightarrow> fl" where
  "fl_div NaN y = NaN"
| "fl_div x NaN = NaN"
| "fl_div (Num a) (Num b) =
     (if b \<noteq> 0 then round64 (a / b)
      else if a = 0 then NaN else if a > 0 then PosInf else NegInf)"
| "fl_div (Num a) y = Num 0"
| "fl_div PosInf (Num b) = (if b \<ge> 0 then PosInf else NegInf)"
| "fl_div NegInf (Num b) = (if b \<ge> 0 then NegInf else PosInf)"
| "fl_div x y = NaN"

text \<open>The conversion of an integer to a float rounds as well (beyond 53 bits).\<close>

definition fl_of_int :: "int \<Rightarrow> fl" where
  "fl_of_int n = round64 (of_int n)"

subsection \<open>Series reductions\<close>

text \<open>
  \<^verbatim>\<open>Series.sum()\<close> on a 64-bit integer column adds the entries up from zero in 64-bit
  integers, so the total wraps around.
\<close>

definition series_sum :: "64 word list \<Rightarrow> 64 word" where
  "series_sum xs = foldl (+) 0 xs"

text \<open>
  \<^verbatim>\<open>Series.mean()\<close> on an integer column (pandas' \<^verbatim>\<open>nanmean\<close>) takes the sum of the
  entries as floats and divides it by the count as a float when the count is positive;
  otherwise the result is NaN. Nothing is raised on an empty series. The order in which
  the library adds the floats is not fixed by the source (it depends on the length of the
  series and on the libraries installed), so the float sum is a parameter \<open>fsum\<close>.
  \<open>fsum_seq\<close> is the sum from left to right, which is what numpy does on fewer than
  eight entries.
\<close>

definition fsum_seq :: "64 word list \<Rightarrow> fl" where
  "fsum_seq xs = foldl fl_add (Num 0) (map (fl_of_int \<circ> sint) xs)"

definition series_mean :: "(64 word list \<Rightarrow> fl) \<Rightarrow> 64 word list \<Rightarrow> fl" where
  "series_mean fsum xs =
    (let count = length xs; the_sum = fsum xs
     in if count > 0 then fl_div the_sum (fl_of_int (int count)) else NaN)"

text \<open>Line 112: \<^verbatim>\<open>total_pipeline = pipeline_df['Amount'].sum()\<close>.\<close>

definition total_pipeline :: "deal list \<Rightarrow> 64 word" where
  "total_pipeline df = series_sum (map Amount df)"

text \<open>
  Line 116: \<^verbatim>\<open>avg_deal = pipeline_df['Amount'].mean()\<close>. The result is a sum type
  so that raising is a possible outcome; the source has no raising path here.
\<close>

definition avg_deal :: "(64 word list \<Rightarrow> fl) \<Rightarrow> deal list \<Rightarrow> error + fl" where
  "avg_deal fsum df = Inr (series_mean fsum (map Amount df))"

text \<open>
  Line 137: \<^verbatim>\<open>pipeline_df.groupby('Stage')['Amount'].sum().reset_index()\<close>. The
  group keys are the distinct values of the key column in ascending order (pandas sorts
  group keys by default; strings compare lexicographically by character code), and each
  key carries the 64-bit sum of the value column over the rows of its group.
\<close>

definition groupby_sum ::
  "('r \<Rightarrow> string) \<Rightarrow> ('r \<Rightarrow> 64 word) \<Rightarrow> 'r list \<Rightarrow> (string \<times> 64 word) list" where
  "groupby_sum key val df =
    map (\<lambda>k. (k, series_sum (map val (filter (\<lambda>r. key r = k) df))))
      (sort (remdups (map key df)))"

definition stage_summary :: "deal list \<Rightarrow> (string \<times> 64 word) list" where
  "stage_summary df = groupby_sum Stage Amount df"

text \<open>
  Line 197: \<^verbatim>\<open>revenue_display['Net_MRR'].pct_change() * 100\<close>. pandas computes
  \<^verbatim>\<open>pct_change\<close> as \<^verbatim>\<open>data / data.shift(1) - 1\<close>: the shifted series starts with NaN
  and then repeats the series without its last entry; the integer column is converted to
  floats for the division. (The integer column has no missing entry, so the fill step of
  \<^verbatim>\<open>pct_change\<close> changes nothing.) Line 198 then rounds the column and turns it into
  text for display; that formatting is not modelled.
\<close>

definition shift1 :: "fl list \<Rightarrow> fl list" where
  "shift1 xs = (if xs = [] then [] else NaN # butlast xs)"

definition pct_change :: "fl list \<Rightarrow> fl list" where
  "pct_change xs = map (\<lambda>(x, prev). fl_sub (fl_div x prev) (Num 1)) (zip xs (shift1 xs))"

definition Growth_Rate :: "revenue_month list \<Rightarrow> fl list" where
  "Growth_Rate df = map (\<lambda>r. fl_mul r (Num 100)) (pct_change (map (fl_of_int \<circ> Net_MRR) df))"

section \<open>Notions of the specification\<close>

text \<open>
  The specification speaks of the domain of an email address: the part after the first
  \<open>@\<close>. The source never computes it; it is defined here to state what the scoring
  block does on addresses of a given domain.
\<close>

definition email_domain :: "string \<Rightarrow> string" where
  "email_domain e = drop 1 (dropWhile (\<lambda>c. c \<noteq> CHR ''@'') e)"

text \<open>
  Modelled from the spec: \<open>classifyHealth\<close>, which no source file defines (the source
  only holds the columns \<^verbatim>\<open>Health_Score\<close> and \<^verbatim>\<open>Risk_Level\<close> as literals). The
  specification's table: a health score of 75 or more is Low, 50 to 74 is Medium, below
  50 is High. The result is the text the \<^verbatim>\<open>Risk_Level\<close> column holds.
\<close>

definition classifyHealth :: "int \<Rightarrow> string" where
  "classifyHealth healthScore =
    (if healthScore \<ge> 75 then ''Low'' else if healthScore \<ge> 50 then ''Medium'' else ''High'')"

text \<open>
  The specification's growth formula for a month with net MRR \<open>cur\<close> after a month with
  net MRR \<open>prev\<close>, as the number it denotes: \<open>(cur - prev) / prev \<times> 100\<close>. It is
  meant for a \<open>prev\<close> other than zero.
\<close>

definition growth_formula :: "int \<Rightarrow> int \<Rightarrow> rat" where
  "growth_formula cur prev = (of_int cur - of_int prev) / of_int prev * 100"

text \<open>
  The same formula evaluated in floats, operation by operation in the order it is
  written.
\<close>

definition growth_formula_fl :: "int \<Rightarrow> int \<Rightarrow> fl" where
  "growth_formula_fl cur prev =
     fl_mul (fl_div (fl_sub (fl_of_int cur) (fl_of_int prev)) (fl_of_int prev)) (Num 100)"

text \<open>The specification's invariant of a revenue row.\<close>

definition net_mrr_invariant :: "revenue_month \<Rightarrow> bool" where
  "net_mrr_invariant r = (Net_MRR r = New_MRR r - Churn_MRR r)"

section \<open>Substring containment\<close>

lemma str_startswith_iff: "str_startswith s p \<longleftrightarrow> (\<exists>q. s = p @ q)"
  by (induction s p rule: str_startswith.induct) auto

lemma str_contains_iff: "str_contains s sub \<longleftrightarrow> (\<exists>p q. s = p @ sub @ q)"
proof (induction s)
  case Nil
  show ?case by (cases sub) auto
next
  case (Cons c cs)
  show ?case
  proof
    assume "str_contains (c # cs) sub"
    then consider "str_startswith (c # cs) sub" | "str_contains cs sub" by auto
    then show "\<exists>p q. c # cs = p @ sub @ q"
    proof cases
      case 1
      then obtain q where "c # cs = sub @ q" by (auto simp: str_startswith_iff)
      then have "c # cs = [] @ sub @ q" by simp
      then show ?thesis by blast
    next
      case 2
      then obtain p q where "cs = p @ sub @ q" using Cons.IH by auto
      then have "c # cs = (c # p) @ sub @ q" by simp
      then show ?thesis by blast
    qed
  next
    assume "\<exists>p q. c # cs = p @ sub @ q"
    then obtain p q where pq: "c # cs = p @ sub @ q" by blast
    show "str_contains (c # cs) sub"
    proof (cases p)
      case Nil
      with pq have "str_startswith (c # cs) sub" by (auto simp: str_startswith_iff)
      then show ?thesis by simp
    next
      case (Cons a p')
      with pq have "cs = p' @ sub @ q" by simp
      then have "str_contains cs sub" using Cons.IH by blast
      then show ?thesis by simp
    qed
  qed
qed

section \<open>The scoring block\<close>

text \<open>
  C9. The free-mail test is substring containment on the whole address, not membership
  of the address's domain in a set: the address \<open>a@gmail.com.example.org\<close> has the domain
  \<open>gmail.com.example.org\<close>, which is neither \<open>gmail.com\<close> nor \<open>yahoo.com\<close>, it contains
  \<open>@gmail.com\<close>, and with a company name of more than five characters it is scored 30.
\<close>

theorem free_mail_test_is_substring:
  "email_domain ''a@gmail.com.example.org'' = ''gmail.com.example.org''
   \<and> email_domain ''a@gmail.com.example.org'' \<noteq> ''gmail.com''
   \<and> email_domain ''a@gmail.com.example.org'' \<noteq> ''yahoo.com''
   \<and> str_contains ''a@gmail.com.example.org'' ''@gmail.com''
   \<and> length ''Example Organisation'' > 5
   \<and> demo_score (analyze_lead ''A'' ''a@gmail.com.example.org'' ''Example Organisation''
        fresh_session) = Some 30"
  by (simp add: email_domain_def analyze_lead_def fresh_session_def)

text \<open>
  C10. The \<^verbatim>\<open>ai_score\<close> values stored in \<^verbatim>\<open>demo_leads\<close> are not what the scoring
  block computes from the same name, email and company: the second record (Jane Doe,
  \<open>jane@gmail.com\<close>, no company) stores 25 and is scored 30. Of the four records only
  the first agrees.
\<close>

theorem demo_leads_ai_score_not_live_score:
  "email (demo_leads ! 1) = ''jane@gmail.com'' \<and> company (demo_leads ! 1) = ''''
   \<and> ai_score (demo_leads ! 1) = 25
   \<and> demo_score (analyze_lead (name (demo_leads ! 1)) (email (demo_leads ! 1))
        (company (demo_leads ! 1)) fresh_session) = Some 30
   \<and> map ai_score demo_leads = [85, 25, 92, 70]
   \<and> map (\<lambda>l. demo_score (analyze_lead (name l) (email l) (company l) fresh_session))
        demo_leads = [Some 85, Some 30, Some 85, Some 85]"
  by (simp add: demo_leads_def analyze_lead_def fresh_session_def)


text \<open>
  C1, as stated, fails on the code: \<open>hotmail.com\<close> is in the claim's free-mail set, and
  an address of that domain with a company name of more than five characters is scored
  85, not 30. The block tests for \<open>@gmail.com\<close> and \<open>@yahoo.com\<close> only.
\<close>

theorem hotmail_lead_is_scored_85:
  "email_domain ''bob@hotmail.com'' = ''hotmail.com''
   \<and> demo_score (analyze_lead ''Bob'' ''bob@hotmail.com'' ''Hotmail Fan Club'' fresh_session)
       = Some 85
   \<and> demo_score (analyze_lead ''Bob'' ''bob@hotmail.com'' ''Hotmail Fan Club'' fresh_session)
       \<noteq> Some 30"
  by (simp add: email_domain_def analyze_lead_def fresh_session_def)

text \<open>
  C1, amended. The scoring block evaluates its decision table in a fixed order, first
  match wins: when the email contains \<open>@gmail.com\<close> or \<open>@yahoo.com\<close> as a substring the
  score is 30 with the insight "Personal email domain suggests lower business intent";
  otherwise, when the company is not empty and longer than five characters, the score is
  85 with "Professional company email and established business"; otherwise the score is
  50 with "Moderate potential, needs further qualification". The name plays no part, and
  neither does what the session held before.
\<close>

theorem analyze_lead_decision_table:
  "((\<exists>p q. e = p @ ''@gmail.com'' @ q) \<or> (\<exists>p q. e = p @ ''@yahoo.com'' @ q) \<longrightarrow>
      demo_score (analyze_lead n e c st) = Some 30
      \<and> demo_insights (analyze_lead n e c st)
          = Some ''Personal email domain suggests lower business intent'')
   \<and> (\<not> ((\<exists>p q. e = p @ ''@gmail.com'' @ q) \<or> (\<exists>p q. e = p @ ''@yahoo.com'' @ q))
        \<and> c \<noteq> [] \<and> length c > 5 \<longrightarrow>
      demo_score (analyze_lead n e c st) = Some 85
      \<and> demo_insights (analyze_lead n e c st)
          = Some ''Professional company email and established business'')
   \<and> (\<not> ((\<exists>p q. e = p @ ''@gmail.com'' @ q) \<or> (\<exists>p q. e = p @ ''@yahoo.com'' @ q))
        \<and> \<not> (c \<noteq> [] \<and> length c > 5) \<longrightarrow>
      demo_score (analyze_lead n e c st) = Some 50
      \<and> demo_insights (analyze_lead n e c st)
          = Some ''Moderate potential, needs further qualification'')"
  unfolding str_contains_iff [symmetric] by (simp add: analyze_lead_def)

text \<open>The three rows of the table, each at an input that reaches it.\<close>

theorem analyze_lead_decision_table_witness:
  "demo_score (analyze_lead ''Jane Doe'' ''jane@yahoo.com'' ''Doe and Daughters'' fresh_session)
     = Some 30
   \<and> demo_score (analyze_lead ''John Smith'' ''john@techcorp.com'' ''TechCorp Solutions''
        fresh_session) = Some 85
   \<and> demo_score (analyze_lead ''Al'' ''al@acme.io'' ''Acme'' fresh_session) = Some 50"
proof -
  have a: "(\<exists>p q. ''jane@yahoo.com'' = p @ ''@gmail.com'' @ q)
       \<or> (\<exists>p q. ''jane@yahoo.com'' = p @ ''@yahoo.com'' @ q)"
    unfolding str_contains_iff [symmetric] by simp
  have b: "\<not> ((\<exists>p q. ''john@techcorp.com'' = p @ ''@gmail.com'' @ q)
            \<or> (\<exists>p q. ''john@techcorp.com'' = p @ ''@yahoo.com'' @ q))
       \<and> ''TechCorp Solutions'' \<noteq> [] \<and> length ''TechCorp Solutions'' > 5"
    unfolding str_contains_iff [symmetric] by simp
  have c: "\<not> ((\<exists>p q. ''al@acme.io'' = p @ ''@gmail.com'' @ q)
            \<or> (\<exists>p q. ''al@acme.io'' = p @ ''@yahoo.com'' @ q))
       \<and> \<not> (''Acme'' \<noteq> [] \<and> length ''Acme'' > 5)"
    unfolding str_contains_iff [symmetric] by simp
  from a b c
    analyze_lead_decision_table [of "''jane@yahoo.com''" "''Jane Doe''" "''Doe and Daughters''"
      fresh_session]
    analyze_lead_decision_table [of "''john@techcorp.com''" "''John Smith''"
      "''TechCorp Solutions''" fresh_session]
    analyze_lead_decision_table [of "''al@acme.io''" "''Al''" "''Acme''" fresh_session]
  show ?thesis by blast
qed

section \<open>The priority buckets\<close>

text \<open>
  C3. The rendering block shows a score from 80 to 100 as High, a score from 60 up to but
  not including 80 as Medium, and a lower score as Low. Every score the analysis stores
  lies between 0 and 100. One run of the page on \<open>jane@gmail.com\<close> with no company
  shows 30 and Low; on \<open>mike@enterprise-solutions.com\<close> with the company
  "Enterprise Solutions Inc" it shows 85 and High.
\<close>

theorem score_priority_buckets:
  "(80 \<le> s \<and> s \<le> 100 \<longrightarrow> score_priority s = High)
   \<and> (60 \<le> s \<and> s < 80 \<longrightarrow> score_priority s = Medium)
   \<and> (s < 60 \<longrightarrow> score_priority s = Low)
   \<and> (\<exists>v. demo_score (analyze_lead n e c st) = Some v \<and> 0 \<le> v \<and> v \<le> 100)
   \<and> live_scoring n ''jane@gmail.com'' '''' =
       Inr (Some \<lparr>shown_score = 30, shown_priority = Low,
         shown_message = ''Low Priority: Personal email domain suggests lower business intent''\<rparr>)
   \<and> live_scoring n ''mike@enterprise-solutions.com'' ''Enterprise Solutions Inc'' =
       Inr (Some \<lparr>shown_score = 85, shown_priority = High,
         shown_message = ''High Priority: Professional company email and established business''\<rparr>)"
  by (simp add: score_priority_def live_scoring_def analyze_lead_def render_results_def
      fresh_session_def)

text \<open>One score in each bucket.\<close>

theorem score_priority_buckets_witness:
  "score_priority 85 = High \<and> score_priority 70 = Medium \<and> score_priority 30 = Low"
  using score_priority_buckets [of 85] score_priority_buckets [of 70]
    score_priority_buckets [of 30]
  by simp


section \<open>Sums over the pipeline\<close>

text \<open>
  Addition of 64-bit words is addition of integers, reduced to the signed 64-bit range.
\<close>

lemma series_sum_acc: "foldl (+) a xs = a + sum_list xs" for a :: "64 word"
  by (induction xs arbitrary: a) (simp_all add: add.assoc)

lemma series_sum_eq: "series_sum xs = sum_list xs"
  by (simp add: series_sum_def series_sum_acc)

lemma sum_list_word_of_int:
  "sum_list (map f xs) = (word_of_int (\<Sum>x\<leftarrow>xs. sint (f x)) :: 64 word)"
  by (induction xs) simp_all

lemma sint_word_of_int_wrap:
  "sint (word_of_int k :: 64 word) = (k + 2 ^ 63) mod 2 ^ 64 - 2 ^ 63"
  by (simp add: int_word_sint)

lemma sint_word_of_int_exact:
  "- (2 ^ 63) \<le> k \<Longrightarrow> k < 2 ^ 63 \<Longrightarrow> sint (word_of_int k :: 64 word) = k"
  by (simp add: sint_word_of_int_wrap)

text \<open>
  C6, as stated, fails on the code: the total is computed in 64-bit integers. Two deals
  with the amounts 9223372036854775807 and 1 have the sum 9223372036854775808, and the
  pipeline total is -9223372036854775808.
\<close>

theorem total_pipeline_wraps_around:
  "sint (total_pipeline
     [\<lparr>Company = ''A'', Amount = 9223372036854775807, Stage = ''Demo'', Rep = ''John'',
        Close_Date = ''2024-02-15''\<rparr>,
      \<lparr>Company = ''B'', Amount = 1, Stage = ''Demo'', Rep = ''Sarah'',
        Close_Date = ''2024-02-20''\<rparr>]) = - 9223372036854775808
   \<and> (\<Sum>d\<leftarrow>[\<lparr>Company = ''A'', Amount = 9223372036854775807, Stage = ''Demo'', Rep = ''John'',
        Close_Date = ''2024-02-15''\<rparr>,
      \<lparr>Company = ''B'', Amount = 1, Stage = ''Demo'', Rep = ''Sarah'',
        Close_Date = ''2024-02-20''\<rparr>]. sint (Amount d)) = 9223372036854775808"
  by (simp add: total_pipeline_def series_sum_def)

text \<open>
  C6, amended. For every non-empty frame of deals, the pipeline total is the sum of the
  amounts of its deals reduced to the signed 64-bit range (that is,
  \<open>(sum + 2\<^sup>6\<^sup>3) mod 2\<^sup>6\<^sup>4 - 2\<^sup>6\<^sup>3\<close>); it is the sum itself whenever the sum lies
  in that range.
\<close>

theorem total_pipeline_is_wrapped_sum:
  "df \<noteq> [] \<Longrightarrow>
     sint (total_pipeline df) = ((\<Sum>d\<leftarrow>df. sint (Amount d)) + 2 ^ 63) mod 2 ^ 64 - 2 ^ 63
     \<and> (- (2 ^ 63) \<le> (\<Sum>d\<leftarrow>df. sint (Amount d)) \<and> (\<Sum>d\<leftarrow>df. sint (Amount d)) < 2 ^ 63
          \<longrightarrow> sint (total_pipeline df) = (\<Sum>d\<leftarrow>df. sint (Amount d)))"
proof -
  have "total_pipeline df = word_of_int (\<Sum>d\<leftarrow>df. sint (Amount d))"
    by (simp add: total_pipeline_def series_sum_eq sum_list_word_of_int comp_def)
  then show ?thesis
    by (simp add: sint_word_of_int_wrap)
qed

text \<open>
  The mock pipeline is not empty, its amounts add up to 200000, and so does the total.
\<close>

theorem total_pipeline_is_wrapped_sum_witness:
  "pipeline_df \<noteq> [] \<and> (\<Sum>d\<leftarrow>pipeline_df. sint (Amount d)) = 200000
   \<and> sint (total_pipeline pipeline_df) = 200000"
proof -
  have ne: "pipeline_df \<noteq> []" by (simp add: pipeline_df_def)
  have s: "(\<Sum>d\<leftarrow>pipeline_df. sint (Amount d)) = 200000" by (simp add: pipeline_df_def)
  from total_pipeline_is_wrapped_sum [OF ne] s ne show ?thesis by simp
qed

section \<open>The pipeline by stage\<close>

lemma sum_list_filter_disj:
  fixes f :: "'r \<Rightarrow> int"
  assumes "\<And>r. \<not> (P r \<and> Q r)"
  shows "(\<Sum>r\<leftarrow>filter (\<lambda>r. P r \<or> Q r) xs. f r)
         = (\<Sum>r\<leftarrow>filter P xs. f r) + (\<Sum>r\<leftarrow>filter Q xs. f r)"
  using assms by (induction xs) auto

text \<open>
  Over distinct keys, the group sums add up to the sum over the rows that have one of the keys.
\<close>

lemma sum_list_groups:
  fixes val :: "'r \<Rightarrow> int"
  assumes "distinct ks"
  shows "(\<Sum>k\<leftarrow>ks. \<Sum>r\<leftarrow>filter (\<lambda>r. key r = k) df. val r)
         = (\<Sum>r\<leftarrow>filter (\<lambda>r. key r \<in> set ks) df. val r)"
  using assms
proof (induction ks)
  case Nil
  show ?case by simp
next
  case (Cons k ks)
  then have notin: "k \<notin> set ks" and d: "distinct ks" by simp_all
  have "(\<Sum>r\<leftarrow>filter (\<lambda>r. key r = k \<or> key r \<in> set ks) df. val r)
        = (\<Sum>r\<leftarrow>filter (\<lambda>r. key r = k) df. val r)
          + (\<Sum>r\<leftarrow>filter (\<lambda>r. key r \<in> set ks) df. val r)"
    by (rule sum_list_filter_disj) (use notin in auto)
  with Cons.IH [OF d] show ?case by simp
qed

lemma sum_list_all_groups:
  fixes val :: "'r \<Rightarrow> int"
  shows "(\<Sum>k\<leftarrow>sort (remdups (map key df)). \<Sum>r\<leftarrow>filter (\<lambda>r. key r = k) df. val r)
         = (\<Sum>r\<leftarrow>df. val r)"
proof -
  have "(\<Sum>k\<leftarrow>sort (remdups (map key df)). \<Sum>r\<leftarrow>filter (\<lambda>r. key r = k) df. val r)
        = (\<Sum>r\<leftarrow>filter (\<lambda>r. key r \<in> set (sort (remdups (map key df)))) df. val r)"
    by (rule sum_list_groups) simp
  also have "filter (\<lambda>r. key r \<in> set (sort (remdups (map key df)))) df = df"
    by (simp add: filter_id_conv)
  finally show ?thesis .
qed

lemma sum_list_filter_bounds:
  fixes f :: "'r \<Rightarrow> int"
  assumes "\<forall>r\<in>set xs. 0 \<le> f r"
  shows "0 \<le> (\<Sum>r\<leftarrow>filter P xs. f r) \<and> (\<Sum>r\<leftarrow>filter P xs. f r) \<le> (\<Sum>r\<leftarrow>xs. f r)"
  using assms by (induction xs) auto

lemma groupby_sum_keys: "map fst (groupby_sum key val df) = sort (remdups (map key df))"
  by (simp add: groupby_sum_def comp_def)

lemma groupby_sum_values:
  "(k, v) \<in> set (groupby_sum key val df) \<Longrightarrow>
   v = word_of_int (\<Sum>r\<leftarrow>filter (\<lambda>r. key r = k) df. sint (val r))"
  by (auto simp: groupby_sum_def series_sum_eq sum_list_word_of_int comp_def)

lemma sum_list_map_word_of_int:
  "sum_list (map (\<lambda>k. word_of_int (g k)) ks) = (word_of_int (\<Sum>k\<leftarrow>ks. g k) :: 64 word)"
  by (induction ks) simp_all

lemma groupby_sum_total:
  "sum_list (map snd (groupby_sum key val df)) = series_sum (map val df)"
proof -
  have "sum_list (map snd (groupby_sum key val df))
        = sum_list (map (\<lambda>k. word_of_int (\<Sum>r\<leftarrow>filter (\<lambda>r. key r = k) df. sint (val r)))
            (sort (remdups (map key df))))"
    by (simp add: groupby_sum_def comp_def series_sum_eq sum_list_word_of_int)
  also have "\<dots> = word_of_int (\<Sum>k\<leftarrow>sort (remdups (map key df)).
                       \<Sum>r\<leftarrow>filter (\<lambda>r. key r = k) df. sint (val r))"
    by (rule sum_list_map_word_of_int)
  also have "\<dots> = word_of_int (\<Sum>r\<leftarrow>df. sint (val r))"
    by (simp add: sum_list_all_groups)
  finally show ?thesis
    by (simp add: series_sum_eq sum_list_word_of_int comp_def)
qed

text \<open>
  When no amount is negative and the total fits in 63 bits, no group sum wraps around.
\<close>

lemma groupby_sum_exact:
  assumes nonneg: "\<forall>r\<in>set df. 0 \<le> sint (val r)"
    and fits: "(\<Sum>r\<leftarrow>df. sint (val r)) < 2 ^ 63"
  shows "\<forall>(k, v) \<in> set (groupby_sum key val df).
           sint v = (\<Sum>r\<leftarrow>filter (\<lambda>r. key r = k) df. sint (val r))"
    and "(\<Sum>(k, v)\<leftarrow>groupby_sum key val df. sint v) = (\<Sum>r\<leftarrow>df. sint (val r))"
proof -
  have grp: "sint (word_of_int (\<Sum>r\<leftarrow>filter (\<lambda>r. key r = k) df. sint (val r)) :: 64 word)
             = (\<Sum>r\<leftarrow>filter (\<lambda>r. key r = k) df. sint (val r))" for k
  proof (rule sint_word_of_int_exact)
    from sum_list_filter_bounds [OF nonneg, of "\<lambda>r. key r = k"] fits
    show "- (2 ^ 63) \<le> (\<Sum>r\<leftarrow>filter (\<lambda>r. key r = k) df. sint (val r))"
      and "(\<Sum>r\<leftarrow>filter (\<lambda>r. key r = k) df. sint (val r)) < 2 ^ 63"
      by simp_all
  qed
  show "\<forall>(k, v) \<in> set (groupby_sum key val df).
           sint v = (\<Sum>r\<leftarrow>filter (\<lambda>r. key r = k) df. sint (val r))"
    using groupby_sum_values [of _ _ key val df] grp by auto
  have "(\<Sum>(k, v)\<leftarrow>groupby_sum key val df. sint v)
        = (\<Sum>k\<leftarrow>sort (remdups (map key df)). \<Sum>r\<leftarrow>filter (\<lambda>r. key r = k) df. sint (val r))"
    by (simp add: groupby_sum_def comp_def series_sum_eq sum_list_word_of_int grp)
  then show "(\<Sum>(k, v)\<leftarrow>groupby_sum key val df. sint v) = (\<Sum>r\<leftarrow>df. sint (val r))"
    by (simp add: sum_list_all_groups)
qed

text \<open>
  C5, as stated, fails on the code: the group sums are computed in 64-bit integers. Two
  Demo deals with the amounts 9223372036854775807 and 1 give the single group Demo with
  the value -9223372036854775808, while the amounts of the deals in that stage add up to
  9223372036854775808.
\<close>

theorem stage_summary_wraps:
  "stage_summary
     [\<lparr>Company = ''Acme Corp'', Amount = 9223372036854775807, Stage = ''Demo'', Rep = ''John'',
        Close_Date = ''2024-02-15''\<rparr>,
      \<lparr>Company = ''CloudSys'', Amount = 1, Stage = ''Demo'', Rep = ''John'',
        Close_Date = ''2024-02-25''\<rparr>] = [(''Demo'', word_of_int (- 9223372036854775808))]
   \<and> sint (word_of_int (- 9223372036854775808) :: 64 word) = - 9223372036854775808
   \<and> (\<Sum>d\<leftarrow>filter (\<lambda>d. Stage d = ''Demo'')
        [\<lparr>Company = ''Acme Corp'', Amount = 9223372036854775807, Stage = ''Demo'', Rep = ''John'',
           Close_Date = ''2024-02-15''\<rparr>,
         \<lparr>Company = ''CloudSys'', Amount = 1, Stage = ''Demo'', Rep = ''John'',
           Close_Date = ''2024-02-25''\<rparr>]. sint (Amount d)) = 9223372036854775808"
  by (simp add: stage_summary_def groupby_sum_def series_sum_def)

text \<open>
  C5, amended. For every frame of deals, the keys of the stage summary are the stages
  that occur in the frame (so they are a subset of them, and a stage with no deal has no
  key), no key occurs twice, each key carries the sum of the amounts of the deals in that
  stage reduced to the signed 64-bit range, and the 64-bit sum of the values of all
  groups is the pipeline total. When no amount is negative and the amounts of the frame
  add up to less than \<open>2\<^sup>6\<^sup>3\<close>, each key carries the sum of the amounts of its
  stage itself, and the values of all groups add up to the pipeline total, which is the
  sum of all amounts.
\<close>

theorem stage_summary_groups:
  "fst ` set (stage_summary df) = Stage ` set df
   \<and> distinct (map fst (stage_summary df))
   \<and> (\<forall>(k, v) \<in> set (stage_summary df).
         sint v = ((\<Sum>d\<leftarrow>filter (\<lambda>d. Stage d = k) df. sint (Amount d)) + 2 ^ 63) mod 2 ^ 64
                  - 2 ^ 63)
   \<and> sum_list (map snd (stage_summary df)) = total_pipeline df
   \<and> ((\<forall>d \<in> set df. 0 \<le> sint (Amount d)) \<and> (\<Sum>d\<leftarrow>df. sint (Amount d)) < 2 ^ 63 \<longrightarrow>
        (\<forall>(k, v) \<in> set (stage_summary df).
           sint v = (\<Sum>d\<leftarrow>filter (\<lambda>d. Stage d = k) df. sint (Amount d)))
        \<and> (\<Sum>(k, v)\<leftarrow>stage_summary df. sint v) = sint (total_pipeline df)
        \<and> sint (total_pipeline df) = (\<Sum>d\<leftarrow>df. sint (Amount d)))"
proof -
  have keys: "map fst (stage_summary df) = sort (remdups (map Stage df))"
    by (simp add: stage_summary_def groupby_sum_keys)
  have "set (map fst (stage_summary df)) = Stage ` set df"
    unfolding keys by simp
  then have a: "fst ` set (stage_summary df) = Stage ` set df" by simp
  have b: "distinct (map fst (stage_summary df))"
    unfolding keys by simp
  have c: "\<forall>(k, v) \<in> set (stage_summary df).
         sint v = ((\<Sum>d\<leftarrow>filter (\<lambda>d. Stage d = k) df. sint (Amount d)) + 2 ^ 63) mod 2 ^ 64
                  - 2 ^ 63"
  proof (clarify)
    fix k v
    assume "(k, v) \<in> set (stage_summary df)"
    then have "v = word_of_int (\<Sum>d\<leftarrow>filter (\<lambda>d. Stage d = k) df. sint (Amount d))"
      by (simp add: stage_summary_def groupby_sum_values)
    then show "sint v = ((\<Sum>d\<leftarrow>filter (\<lambda>d. Stage d = k) df. sint (Amount d)) + 2 ^ 63)
                 mod 2 ^ 64 - 2 ^ 63"
      by (simp only: sint_word_of_int_wrap)
  qed
  have d: "sum_list (map snd (stage_summary df)) = total_pipeline df"
    by (simp add: stage_summary_def total_pipeline_def groupby_sum_total)
  have e: "(\<forall>(k, v) \<in> set (stage_summary df).
           sint v = (\<Sum>d\<leftarrow>filter (\<lambda>d. Stage d = k) df. sint (Amount d)))
        \<and> (\<Sum>(k, v)\<leftarrow>stage_summary df. sint v) = sint (total_pipeline df)
        \<and> sint (total_pipeline df) = (\<Sum>d\<leftarrow>df. sint (Amount d))"
    if nonneg: "\<forall>d \<in> set df. 0 \<le> sint (Amount d)" and fits: "(\<Sum>d\<leftarrow>df. sint (Amount d)) < 2 ^ 63"
  proof -
    have "0 \<le> (\<Sum>d\<leftarrow>df. sint (Amount d))"
      using nonneg by (induction df) simp_all
    with fits have tot: "sint (total_pipeline df) = (\<Sum>d\<leftarrow>df. sint (Amount d))"
      by (simp add: total_pipeline_def series_sum_eq sum_list_word_of_int comp_def
          sint_word_of_int_exact)
    from groupby_sum_exact [OF nonneg fits, of Stage] tot show ?thesis
      by (simp add: stage_summary_def)
  qed
  from a b c d e show ?thesis by blast
qed

text \<open>
  On the mock pipeline no amount is negative and the total is small; the stage Demo has
  two deals, 25000 and 35000, and the five groups add up to 200000.
\<close>

theorem stage_summary_groups_witness:
  "map (\<lambda>d. sint (Amount d)) pipeline_df = [25000, 45000, 15000, 35000, 60000, 20000]
   \<and> (\<Sum>d\<leftarrow>pipeline_df. sint (Amount d)) < 2 ^ 63
   \<and> (''Demo'', 60000) \<in> set (stage_summary pipeline_df)
   \<and> (\<Sum>d\<leftarrow>filter (\<lambda>d. Stage d = ''Demo'') pipeline_df. sint (Amount d)) = 60000
   \<and> (\<Sum>(k, v)\<leftarrow>stage_summary pipeline_df. sint v) = 200000"
proof -
  have n: "\<forall>d \<in> set pipeline_df. 0 \<le> sint (Amount d)"
    by (simp add: pipeline_df_def)
  have f: "(\<Sum>d\<leftarrow>pipeline_df. sint (Amount d)) = 200000"
    by (simp add: pipeline_df_def)
  have s: "stage_summary pipeline_df =
      [(''Closed Won'', 60000), (''Demo'', 60000), (''Negotiation'', 15000),
       (''Proposal'', 45000), (''Qualified'', 20000)]"
    by code_simp
  have m: "(''Demo'', 60000) \<in> set (stage_summary pipeline_df)"
    unfolding s by simp
  have g: "sint (60000 :: 64 word) = 60000" by simp
  have a: "map (\<lambda>d. sint (Amount d)) pipeline_df = [25000, 45000, 15000, 35000, 60000, 20000]"
    by (simp add: pipeline_df_def)
  from n f m g stage_summary_groups [of pipeline_df]
  have "(\<Sum>d\<leftarrow>filter (\<lambda>d. Stage d = ''Demo'') pipeline_df. sint (Amount d)) = 60000"
    and "(\<Sum>(k, v)\<leftarrow>stage_summary pipeline_df. sint v) = 200000"
    by auto
  with a f m show ?thesis by simp
qed

section \<open>Rounding to a 64-bit float\<close>

text \<open>
  The binary exponent: \<open>ilog2 x\<close> is the one \<open>e\<close> with \<open>2\<^sup>e \<le> x < 2\<^sup>e\<^sup>+\<^sup>1\<close>.
\<close>

lemma ilog2_bounds:
  assumes "0 < x"
  shows "2 powi (ilog2 x) \<le> x \<and> x < 2 powi (ilog2 x + 1)"
proof (cases "1 \<le> x")
  case True
  define n where "n = \<lfloor>x\<rfloor>"
  have n1: "1 \<le> n" using True by (simp add: n_def le_floor_iff)
  then have npos: "0 < n" by simp
  have b1: "1 \<le> bitlen n" using npos by (simp add: bitlen_alt_def)
  from bitlen_bounds [OF npos]
  have lo: "2 ^ nat (bitlen n - 1) \<le> n" and hi: "n < 2 ^ nat (bitlen n)" by simp_all
  have e: "ilog2 x = bitlen n - 1" using True by (simp add: ilog2_def n_def)
  have "(2::rat) powi (bitlen n - 1) = 2 ^ nat (bitlen n - 1)"
    using b1 by (simp add: power_int_def)
  also have "\<dots> = of_int (2 ^ nat (bitlen n - 1))" by simp
  also have "\<dots> \<le> of_int n" using lo by (simp only: of_int_le_iff)
  also have "\<dots> \<le> x" by (simp add: n_def)
  finally have A: "2 powi (ilog2 x) \<le> x" by (simp add: e)
  have "x < of_int (n + 1)" using floor_correct [of x] by (simp add: n_def)
  also have "of_int (n + 1) \<le> (of_int (2 ^ nat (bitlen n)) :: rat)"
    unfolding of_int_le_iff using hi by linarith
  also have "\<dots> = 2 powi (bitlen n)" using b1 by (simp add: power_int_def)
  finally have B: "x < 2 powi (ilog2 x + 1)" by (simp add: e)
  from A B show ?thesis by simp
next
  case False
  then have x1: "x < 1" by simp
  define y where "y = 1 / x"
  have y1: "1 < y" using assms x1 by (simp add: y_def)
  define m where "m = \<lceil>y\<rceil> - 1"
  have my: "of_int m < y" using ceiling_correct [of y] by (simp add: m_def)
  have ym: "y \<le> of_int (m + 1)" using ceiling_correct [of y] by (simp add: m_def)
  have "(of_int 1 :: rat) < of_int (m + 1)" using y1 ym by simp
  then have "1 < m + 1" by (simp only: of_int_less_iff)
  then have mpos: "0 < m" by simp
  have b1: "1 \<le> bitlen m" using mpos by (simp add: bitlen_alt_def)
  from bitlen_bounds [OF mpos]
  have lo: "2 ^ nat (bitlen m - 1) \<le> m" and hi: "m < 2 ^ nat (bitlen m)" by simp_all
  have e: "ilog2 x = - bitlen m" using False by (simp add: ilog2_def m_def y_def)
  have "y \<le> of_int (m + 1)" by (rule ym)
  also have "of_int (m + 1) \<le> (of_int (2 ^ nat (bitlen m)) :: rat)"
    unfolding of_int_le_iff using hi by linarith
  also have "\<dots> = 2 powi (bitlen m)" using b1 by (simp add: power_int_def)
  finally have yle: "y \<le> 2 powi (bitlen m)" .
  have "(2::rat) powi (bitlen m - 1) = of_int (2 ^ nat (bitlen m - 1))"
    using b1 by (simp add: power_int_def)
  also have "\<dots> \<le> of_int m" using lo by (simp only: of_int_le_iff)
  also have "\<dots> < y" by (rule my)
  finally have ylt: "2 powi (bitlen m - 1) < y" .
  have p: "0 < (2::rat) powi k" for k by simp
  have xy: "x = 1 / y" using assms by (simp add: y_def)
  have A: "2 powi (- bitlen m) \<le> x"
    unfolding xy power_int_minus_divide using yle y1 p [of "bitlen m"]
    by (simp add: frac_le)
  have "x < 1 / (2 powi (bitlen m - 1))"
    unfolding xy using ylt p [of "bitlen m - 1"] by (simp add: frac_less2)
  also have "\<dots> = 2 powi (- bitlen m + 1)"
    by (simp add: power_int_minus_divide [symmetric])
  finally have B: "x < 2 powi (- bitlen m + 1)" .
  from A B show ?thesis by (simp add: e)
qed

lemma ilog2_unique:
  assumes "0 < x" "2 powi e \<le> x" "x < 2 powi (e + 1)"
  shows "ilog2 x = e"
proof -
  from ilog2_bounds [OF assms(1)]
  have lo: "2 powi (ilog2 x) \<le> x" and hi: "x < 2 powi (ilog2 x + 1)" by simp_all
  have "\<not> e + 1 \<le> ilog2 x"
  proof
    assume "e + 1 \<le> ilog2 x"
    then have "(2::rat) powi (e + 1) \<le> 2 powi (ilog2 x)"
      by (rule power_int_increasing) simp
    with lo assms(3) show False by linarith
  qed
  moreover have "\<not> ilog2 x + 1 \<le> e"
  proof
    assume "ilog2 x + 1 \<le> e"
    then have "(2::rat) powi (ilog2 x + 1) \<le> 2 powi e"
      by (rule power_int_increasing) simp
    with hi assms(2) show False by linarith
  qed
  ultimately show ?thesis by linarith
qed

text \<open>
  Rounding to the nearest integer is off by at most one half, and it is the only integer closer than one half.
\<close>

lemma rne_error: "\<bar>of_int (rne m) - m\<bar> \<le> 1 / 2"
  using floor_correct [of m] by (auto simp: rne_def Let_def abs_le_iff)

lemma rne_unique:
  assumes "\<bar>m - of_int n\<bar> < 1 / 2"
  shows "rne m = n"
proof -
  have "\<bar>(of_int (rne m) :: rat) - of_int n\<bar> < 1"
    using rne_error [of m] assms by linarith
  then have "\<bar>(of_int (rne m - n) :: rat)\<bar> < of_int 1" by simp
  then have "\<bar>rne m - n\<bar> < 1"
    unfolding of_int_abs [symmetric] by (simp only: of_int_less_iff)
  then show ?thesis by linarith
qed

lemma rne_of_int [simp]: "rne (of_int k) = k"
  by (rule rne_unique) simp

text \<open>
  The value of \<open>round64\<close> at a number of the normal range, from its exponent and its
  53-bit significand.
\<close>

lemma round64_eval:
  assumes "x \<noteq> 0" "2 powi e \<le> \<bar>x\<bar>" "\<bar>x\<bar> < 2 powi (e + 1)" "- 1022 \<le> e"
    and "\<bar>x / 2 powi (e - 52) - of_int n\<bar> < 1 / 2"
    and "\<bar>of_int n * 2 powi (e - 52)\<bar> < (2::rat) powi 1024"
  shows "round64 x = Num (of_int n * 2 powi (e - 52))"
proof -
  have "ilog2 \<bar>x\<bar> = e"
    using assms(1-3) by (intro ilog2_unique) simp_all
  then have m: "max (ilog2 \<bar>x\<bar>) (- 1022) = e" using assms(4) by simp
  have r: "rne (x / 2 powi (e - 52)) = n" by (rule rne_unique) (rule assms(5))
  show ?thesis
    unfolding round64_def Let_def m r using assms(1,6) by (simp only: if_False not_le [symmetric])
qed

lemma round64_evalI:
  assumes "x \<noteq> 0" "2 powi e \<le> \<bar>x\<bar>" "\<bar>x\<bar> < 2 powi (e + 1)" "- 1022 \<le> e"
    and "\<bar>x / 2 powi (e - 52) - of_int n\<bar> < 1 / 2"
    and "\<bar>of_int n * 2 powi (e - 52)\<bar> < (2::rat) powi 1024"
    and "y = of_int n * 2 powi (e - 52)"
  shows "round64 x = Num y"
  using round64_eval [OF assms(1-6)] assms(7) by simp

text \<open>
  The rounding error: below \<open>2\<^sup>1\<^sup>0\<^sup>2\<^sup>3\<close> the result is finite and off by at most
  \<open>2\<^sup>-\<^sup>5\<^sup>3\<close> of the number, or by \<open>2\<^sup>-\<^sup>1\<^sup>0\<^sup>7\<^sup>5\<close> for a subnormal number.
\<close>

lemma round64_error:
  assumes "\<bar>x\<bar> < 2 powi 1023"
  shows "\<exists>y. round64 x = Num y \<and> \<bar>y - x\<bar> \<le> 2 powi (- 53) * \<bar>x\<bar> + 2 powi (- 1075)"
proof (cases "x = 0")
  case True
  then show ?thesis by (simp add: round64_def)
next
  case False
  then have ax: "0 < \<bar>x\<bar>" by simp
  define e0 where "e0 = ilog2 \<bar>x\<bar>"
  define e where "e = max e0 (- 1022)"
  define q :: rat where "q = 2 powi (e - 52)"
  define y where "y = of_int (rne (x / q)) * q"
  have qpos: "0 < q" by (simp add: q_def)
  from ilog2_bounds [OF ax]
  have lo: "2 powi e0 \<le> \<bar>x\<bar>" and hi: "\<bar>x\<bar> < 2 powi (e0 + 1)" by (simp_all add: e0_def)
  have "\<not> 1023 \<le> e0"
  proof
    assume "1023 \<le> e0"
    then have "(2::rat) powi 1023 \<le> 2 powi e0" by (rule power_int_increasing) simp
    with lo assms show False by linarith
  qed
  then have e_le: "e \<le> 1022" by (simp add: e_def)
  have "y - x = q * (of_int (rne (x / q)) - x / q)"
    using qpos by (simp add: y_def field_simps)
  then have "\<bar>y - x\<bar> = q * \<bar>of_int (rne (x / q)) - x / q\<bar>"
    using qpos by (simp add: abs_mult)
  also have "\<dots> \<le> q * (1 / 2)"
    using qpos rne_error [of "x / q"] by (intro mult_left_mono) simp_all
  finally have err: "\<bar>y - x\<bar> \<le> q / 2" by simp
  have half: "q / 2 = 2 powi (e - 53)"
    by (simp add: q_def power_int_diff)
  have bound: "q / 2 \<le> 2 powi (- 53) * \<bar>x\<bar> + 2 powi (- 1075)"
  proof (cases "- 1022 \<le> e0")
    case True
    then have "e = e0" by (simp add: e_def)
    have "(2::rat) powi (- 53 + e0) = 2 powi (- 53) * 2 powi e0"
      by (rule power_int_add) simp
    moreover have "- 53 + e0 = e0 - 53" by simp
    ultimately have "(2::rat) powi (e0 - 53) = 2 powi (- 53) * 2 powi e0" by (simp only:)
    with \<open>e = e0\<close> have "q / 2 = 2 powi (- 53) * 2 powi e0"
      unfolding half by (simp only:)
    also have "\<dots> \<le> 2 powi (- 53) * \<bar>x\<bar>"
      using lo by (intro mult_left_mono) simp_all
    also have "\<dots> \<le> 2 powi (- 53) * \<bar>x\<bar> + 2 powi (- 1075)" by simp
    finally show ?thesis .
  next
    case False
    then have "e = - 1022" by (simp add: e_def)
    then have "q / 2 = 2 powi (- 1075)" unfolding half by simp
    moreover have "0 \<le> (2::rat) powi (- 53) * \<bar>x\<bar>" by simp
    ultimately show ?thesis by linarith
  qed
  have "q / 2 = 2 powi (e - 53)" by (rule half)
  also have "\<dots> \<le> 2 powi 969"
    using e_le by (intro power_int_increasing) simp_all
  finally have qsmall: "q / 2 \<le> 2 powi 969" .
  have "\<bar>y\<bar> \<le> \<bar>x\<bar> + q / 2" using err by linarith
  also have "\<dots> < 2 powi 1023 + 2 powi 969" using assms qsmall by linarith
  also have "\<dots> \<le> (2::rat) powi 1024" by simp
  finally have fin: "\<not> 2 powi 1024 \<le> \<bar>y\<bar>" by simp
  have "round64 x = Num y"
    using \<open>x \<noteq> 0\<close> fin
    by (simp only: round64_def Let_def e0_def [symmetric] e_def [symmetric] q_def [symmetric]
        y_def [symmetric] if_False)
  with err bound show ?thesis by (intro exI [of _ y]) linarith
qed

text \<open>
  An integer below \<open>2\<^sup>5\<^sup>3\<close> in magnitude is a float.
\<close>

lemma round64_of_int:
  assumes "\<bar>n\<bar> < 2 ^ 53"
  shows "round64 (of_int n) = Num (of_int n)"
proof (cases "n = 0")
  case True
  then show ?thesis by (simp add: round64_def)
next
  case False
  define x :: rat where "x = of_int n"
  have x0: "x \<noteq> 0" using False by (simp add: x_def)
  then have ax: "0 < \<bar>x\<bar>" by simp
  define e where "e = ilog2 \<bar>x\<bar>"
  from ilog2_bounds [OF ax]
  have lo: "2 powi e \<le> \<bar>x\<bar>" and hi: "\<bar>x\<bar> < 2 powi (e + 1)" by (simp_all add: e_def)
  have "1 \<le> \<bar>n\<bar>" using False by simp
  then have "(of_int 1 :: rat) \<le> of_int \<bar>n\<bar>" by (simp only: of_int_le_iff)
  then have x1: "1 \<le> \<bar>x\<bar>" by (simp add: x_def)
  have "(of_int \<bar>n\<bar> :: rat) < of_int (2 ^ 53)" using assms by (simp only: of_int_less_iff)
  then have x53: "\<bar>x\<bar> < 2 powi 53" by (simp add: x_def)
  have "\<not> e + 1 \<le> 0"
  proof
    assume "e + 1 \<le> 0"
    then have "(2::rat) powi (e + 1) \<le> 2 powi 0" by (rule power_int_increasing) simp
    with hi x1 show False by simp
  qed
  then have e0: "0 \<le> e" by simp
  have "\<not> 53 \<le> e"
  proof
    assume "53 \<le> e"
    then have "(2::rat) powi 53 \<le> 2 powi e" by (rule power_int_increasing) simp
    with lo x53 show False by linarith
  qed
  then have e52: "e \<le> 52" by simp
  define k where "k = nat (52 - e)"
  have q: "(2::rat) powi (e - 52) = 1 / of_int (2 ^ k)"
    using e52 by (simp add: power_int_def k_def field_simps)
  have xq: "x / 2 powi (e - 52) = of_int (n * 2 ^ k)"
    unfolding q by (simp add: x_def)
  have y: "of_int (n * 2 ^ k) * 2 powi (e - 52) = x"
    unfolding q by (simp add: x_def)
  have "round64 x = Num (of_int (n * 2 ^ k) * 2 powi (e - 52))"
  proof (rule round64_eval [OF x0 lo hi])
    show "- 1022 \<le> e" using e0 by simp
    show "\<bar>x / 2 powi (e - 52) - of_int (n * 2 ^ k)\<bar> < 1 / 2" unfolding xq by simp
    have "\<bar>x\<bar> < 2 powi 1024" using x53 by simp
    then show "\<bar>of_int (n * 2 ^ k) * 2 powi (e - 52)\<bar> < (2::rat) powi 1024" unfolding y .
  qed
  then show ?thesis unfolding y by (simp add: x_def)
qed

lemma round64_numeral [simp]:
  "(numeral k :: int) < 2 ^ 53 \<Longrightarrow> round64 (numeral k) = Num (numeral k)"
  using round64_of_int [of "numeral k"] by simp

lemma round64_0 [simp]: "round64 0 = Num 0"
  by (simp add: round64_def)

lemma fl_of_int_numeral [simp]:
  "(numeral k :: int) < 2 ^ 53 \<Longrightarrow> fl_of_int (numeral k) = Num (numeral k)"
  by (simp add: fl_of_int_def)

section \<open>The average deal size\<close>

text \<open>
  On the mock pipeline the model gives the float the dashboard computes,
  33333.333333333336, which is not the rational 100000/3.
\<close>

lemma avg_deal_fixture:
  "avg_deal fsum_seq pipeline_df = Inr (Num (4581298449066667 / 137438953472))"
proof -
  have "round64 (100000 / 3) = Num (4581298449066667 / 137438953472)"
    by (rule round64_evalI [where e = 15 and n = 4581298449066667]) simp_all
  then show ?thesis
    by (simp add: avg_deal_def series_mean_def fsum_seq_def pipeline_df_def)
qed

text \<open>
  C2, as stated, fails on the code: on the empty frame the mean is the value NaN; nothing
  is raised, and in particular no \<open>EmptyInputError\<close>.
\<close>

theorem avg_deal_empty_is_nan:
  "avg_deal fsum_seq [] = Inr NaN \<and> avg_deal fsum_seq [] \<noteq> Inl EmptyInputError"
  by (simp add: avg_deal_def series_mean_def)

text \<open>
  C2, amended. For every empty sequence of deals, the average deal size is NaN and no
  error is raised, whichever way the library adds up floats.
\<close>

theorem avg_deal_empty_never_raises:
  "avg_deal fsum [] = Inr NaN \<and> (\<forall>e. avg_deal fsum [] \<noteq> Inl e)"
  by (simp add: avg_deal_def series_mean_def)

section \<open>The growth rate\<close>

lemma length_shift1: "length (shift1 xs) = length xs"
  by (cases xs) (simp_all add: shift1_def)

lemma shift1_nth:
  "i < length xs \<Longrightarrow> shift1 xs ! i = (if i = 0 then NaN else xs ! (i - 1))"
  by (cases xs) (auto simp: shift1_def nth_Cons' nth_butlast)

lemma length_pct_change: "length (pct_change xs) = length xs"
  by (simp add: pct_change_def length_shift1)

lemma pct_change_nth:
  "i < length xs \<Longrightarrow>
   pct_change xs ! i = fl_sub (fl_div (xs ! i) (if i = 0 then NaN else xs ! (i - 1))) (Num 1)"
  by (simp add: pct_change_def length_shift1 shift1_nth)

lemma fl_div_NaN_right: "fl_div x NaN = NaN"
  by (cases x) simp_all

lemma Growth_Rate_nth:
  "0 < i \<Longrightarrow> i < length df \<Longrightarrow>
   Growth_Rate df ! i =
     fl_mul (fl_sub (fl_div (fl_of_int (Net_MRR (df ! i))) (fl_of_int (Net_MRR (df ! (i - 1)))))
       (Num 1)) (Num 100)"
  by (simp add: Growth_Rate_def length_pct_change pct_change_nth)

text \<open>
  Three roundings in a row, as in \<open>(x - 1) \<times> 100\<close> computed from a rounded \<open>x\<close>:
  the errors add up to at most \<open>2\<^sup>-\<^sup>4\<^sup>4 (|x| + 1)\<close>.
\<close>

lemma scale53:
  fixes a b c :: rat
  assumes "a \<le> 2 powi (- 53) * b + c"
  shows "9007199254740992 * a \<le> b + 9007199254740992 * c"
proof -
  from assms have "a \<le> b / 9007199254740992 + c" by simp
  then have "9007199254740992 * a \<le> 9007199254740992 * (b / 9007199254740992 + c)"
    by (intro mult_left_mono) simp_all
  then show ?thesis by (simp add: distrib_left)
qed

lemma error_chain:
  fixes ax A B C D E G t :: rat
  assumes "9007199254740992 * A \<le> ax + 9007199254740992 * t"
    and "B \<le> ax + 1 + A"
    and "9007199254740992 * C \<le> B + 9007199254740992 * t"
    and "D \<le> B + C"
    and "9007199254740992 * E \<le> 100 * D + 9007199254740992 * t"
    and "G \<le> E + 100 * C + 100 * A"
    and "1152921504606846976 * t \<le> ax + 1" "0 \<le> t" "0 \<le> ax"
  shows "17592186044416 * G \<le> ax + 1"
  using assms by linarith

lemma three_roundings:
  fixes x q1 s r :: rat
  assumes h1: "\<bar>q1 - x\<bar> \<le> 2 powi (- 53) * \<bar>x\<bar> + 2 powi (- 1075)"
    and h2: "\<bar>s - (q1 - 1)\<bar> \<le> 2 powi (- 53) * \<bar>q1 - 1\<bar> + 2 powi (- 1075)"
    and h3: "\<bar>r - s * 100\<bar> \<le> 2 powi (- 53) * \<bar>s * 100\<bar> + 2 powi (- 1075)"
  shows "\<bar>r - (x - 1) * 100\<bar> \<le> 2 powi (- 44) * (\<bar>x\<bar> + 1)"
proof -
  define t where "t = (2::rat) powi (- 1075)"
  have t0: "0 \<le> t" by (simp add: t_def)
  have "t \<le> 2 powi (- 60)" unfolding t_def by (intro power_int_increasing) simp_all
  then have "1152921504606846976 * t \<le> 1" by simp
  then have t1: "1152921504606846976 * t \<le> \<bar>x\<bar> + 1" by linarith
  have a1: "9007199254740992 * \<bar>q1 - x\<bar> \<le> \<bar>x\<bar> + 9007199254740992 * t"
    using h1 unfolding t_def by (rule scale53)
  have b1: "\<bar>q1 - 1\<bar> \<le> \<bar>x\<bar> + 1 + \<bar>q1 - x\<bar>" by linarith
  have a2: "9007199254740992 * \<bar>s - (q1 - 1)\<bar> \<le> \<bar>q1 - 1\<bar> + 9007199254740992 * t"
    using h2 unfolding t_def by (rule scale53)
  have b2: "\<bar>s\<bar> \<le> \<bar>q1 - 1\<bar> + \<bar>s - (q1 - 1)\<bar>" by linarith
  have "9007199254740992 * \<bar>r - s * 100\<bar> \<le> \<bar>s * 100\<bar> + 9007199254740992 * t"
    using h3 unfolding t_def by (rule scale53)
  then have a3: "9007199254740992 * \<bar>r - s * 100\<bar> \<le> 100 * \<bar>s\<bar> + 9007199254740992 * t"
    by (simp add: abs_mult)
  have "r - (x - 1) * 100 = (r - s * 100) + 100 * (s - (q1 - 1)) + 100 * (q1 - x)"
    by (simp add: algebra_simps)
  also have "\<bar>\<dots>\<bar> \<le> \<bar>r - s * 100\<bar> + \<bar>100 * (s - (q1 - 1))\<bar> + \<bar>100 * (q1 - x)\<bar>"
    by (intro order_trans [OF abs_triangle_ineq] add_mono order_refl)
  finally have c: "\<bar>r - (x - 1) * 100\<bar>
      \<le> \<bar>r - s * 100\<bar> + 100 * \<bar>s - (q1 - 1)\<bar> + 100 * \<bar>q1 - x\<bar>"
    by (simp only: abs_mult abs_numeral)
  have "17592186044416 * \<bar>r - (x - 1) * 100\<bar> \<le> \<bar>x\<bar> + 1"
    by (rule error_chain [OF a1 b1 a2 b2 a3 c t1 t0]) simp
  then have "\<bar>r - (x - 1) * 100\<bar> \<le> (\<bar>x\<bar> + 1) / 17592186044416"
    by (simp add: field_simps)
  then show ?thesis by simp
qed

lemma rounding_error_crude:
  fixes x y :: rat
  assumes "\<bar>y - x\<bar> \<le> 2 powi (- 53) * \<bar>x\<bar> + 2 powi (- 1075)"
  shows "\<bar>y - x\<bar> \<le> \<bar>x\<bar> + 1"
proof -
  have "(2::rat) powi (- 53) * \<bar>x\<bar> \<le> 1 * \<bar>x\<bar>"
    by (intro mult_right_mono) simp_all
  moreover have "(2::rat) powi (- 1075) \<le> 2 powi 0"
    by (intro power_int_increasing) simp_all
  ultimately show ?thesis using assms by simp
qed

lemma growth_value_nonzero:
  assumes b0: "b \<noteq> 0" and a53: "\<bar>a\<bar> < 2 ^ 53" and b53: "\<bar>b\<bar> < 2 ^ 53"
  shows "\<exists>g. fl_mul (fl_sub (fl_div (fl_of_int a) (fl_of_int b)) (Num 1)) (Num 100) = Num g
           \<and> \<bar>g - growth_formula a b\<bar> \<le> 2 powi (- 44) * (\<bar>of_int a / of_int b\<bar> + 1)"
proof -
  define x :: rat where "x = of_int a / of_int b"
  have fa: "fl_of_int a = Num (of_int a)" and fb: "fl_of_int b = Num (of_int b)"
    using a53 b53 by (simp_all add: fl_of_int_def round64_of_int)
  have "1 \<le> \<bar>b\<bar>" using b0 by simp
  then have "(of_int 1 :: rat) \<le> of_int \<bar>b\<bar>" by (simp only: of_int_le_iff)
  then have b1: "(1::rat) \<le> \<bar>of_int b\<bar>" by simp
  have "(of_int \<bar>a\<bar> :: rat) < of_int (2 ^ 53)" using a53 by (simp only: of_int_less_iff)
  then have a1: "\<bar>of_int a :: rat\<bar> < 2 ^ 53" by simp
  have "\<bar>x\<bar> = \<bar>of_int a\<bar> / \<bar>of_int b\<bar>" by (simp add: x_def)
  also have "\<dots> \<le> \<bar>of_int a\<bar> / 1" using b1 by (intro divide_left_mono) simp_all
  finally have x53: "\<bar>x\<bar> < 9007199254740992" using a1 by simp
  then have "\<bar>x\<bar> < 2 powi 1023" by simp
  from round64_error [OF this] obtain q1
    where q1: "round64 x = Num q1"
      and h1: "\<bar>q1 - x\<bar> \<le> 2 powi (- 53) * \<bar>x\<bar> + 2 powi (- 1075)" by blast
  from rounding_error_crude [OF h1] x53 have q1b: "\<bar>q1 - 1\<bar> < 36028797018963968" by linarith
  then have "\<bar>q1 - 1\<bar> < 2 powi 1023" by simp
  from round64_error [OF this] obtain s
    where s: "round64 (q1 - 1) = Num s"
      and h2: "\<bar>s - (q1 - 1)\<bar> \<le> 2 powi (- 53) * \<bar>q1 - 1\<bar> + 2 powi (- 1075)" by blast
  from rounding_error_crude [OF h2] q1b have "\<bar>s\<bar> < 144115188075855872" by linarith
  then have "\<bar>s * 100\<bar> < 18446744073709551616" by (simp add: abs_mult)
  then have "\<bar>s * 100\<bar> < 2 powi 1023" by simp
  from round64_error [OF this] obtain r
    where r: "round64 (s * 100) = Num r"
      and h3: "\<bar>r - s * 100\<bar> \<le> 2 powi (- 53) * \<bar>s * 100\<bar> + 2 powi (- 1075)" by blast
  have v: "fl_mul (fl_sub (fl_div (fl_of_int a) (fl_of_int b)) (Num 1)) (Num 100) = Num r"
    using b0 by (simp add: fa fb x_def [symmetric] q1 s r)
  have f: "growth_formula a b = (x - 1) * 100"
    using b0 by (simp add: growth_formula_def x_def field_simps)
  from three_roundings [OF h1 h2 h3] v f show ?thesis
    by (simp add: x_def)
qed

lemma growth_value_zero:
  assumes "\<bar>a\<bar> < 2 ^ 53"
  shows "fl_mul (fl_sub (fl_div (fl_of_int a) (fl_of_int 0)) (Num 1)) (Num 100)
         = (if a = 0 then NaN else if 0 < a then PosInf else NegInf)"
  using assms by (simp add: fl_of_int_def round64_of_int)

text \<open>
  On the mock revenue frame the model gives the floats the dashboard computes: NaN, 25.0,
  19.999999999999996, -13.33333333333333 and 57.692307692307686.
\<close>

lemma Growth_Rate_fixture:
  "Growth_Rate revenue_df =
     [NaN, Num 25, Num (5629499534213119 / 281474976710656),
      Num (- (7505999378950825 / 562949953421312)),
      Num (8119470482038153 / 140737488355328)]"
proof -
  have r0: "round64 (5 / 4) = Num (5 / 4)"
    by (rule round64_evalI [where e = "0" and n = "5629499534213120"]) simp_all
  have r1: "round64 (1 / 4) = Num (1 / 4)"
    by (rule round64_evalI [where e = "- 2" and n = "4503599627370496"]) simp_all
  have r2: "round64 (6 / 5) = Num (5404319552844595 / 4503599627370496)"
    by (rule round64_evalI [where e = "0" and n = "5404319552844595"]) simp_all
  have r3: "round64 (900719925474099 / 4503599627370496)
      = Num (900719925474099 / 4503599627370496)"
    by (rule round64_evalI [where e = "- 3" and n = "7205759403792792"]) simp_all
  have r4: "round64 (22517998136852475 / 1125899906842624)
      = Num (5629499534213119 / 281474976710656)"
    by (rule round64_evalI [where e = "4" and n = "5629499534213119"]) simp_all
  have r5: "round64 (13 / 15) = Num (1951559838527215 / 2251799813685248)"
    by (rule round64_evalI [where e = "- 1" and n = "7806239354108860"]) simp_all
  have r6: "round64 (- (300239975158033 / 2251799813685248))
      = Num (- (300239975158033 / 2251799813685248))"
    by (rule round64_evalI [where e = "- 3" and n = "- 4803839602528528"]) simp_all
  have r7: "round64 (- (7505999378950825 / 562949953421312))
      = Num (- (7505999378950825 / 562949953421312))"
    by (rule round64_evalI [where e = "3" and n = "- 7505999378950825"]) simp_all
  have r8: "round64 (41 / 26) = Num (7101830181622705 / 4503599627370496)"
    by (rule round64_evalI [where e = "0" and n = "7101830181622705"]) simp_all
  have r9: "round64 (2598230554252209 / 4503599627370496)
      = Num (2598230554252209 / 4503599627370496)"
    by (rule round64_evalI [where e = "- 1" and n = "5196461108504418"]) simp_all
  have r10: "round64 (64955763856305225 / 1125899906842624)
      = Num (8119470482038153 / 140737488355328)"
    by (rule round64_evalI [where e = "5" and n = "8119470482038153"]) simp_all
  show ?thesis
    by (simp add: Growth_Rate_def pct_change_def shift1_def revenue_df_def
        r0 r1 r2 r3 r4 r5 r6 r7 r8 r9 r10)
qed

text \<open>
  C4, as stated, fails on the code: after a month with net MRR 90, a month with net MRR
  47185941 gets the growth rate 52428723.33333333 (the float
  3518432063870293 / 67108864). The formula gives 157286170/3, more than 1e-9 away, and
  evaluated in floats in the order it is written it gives 52428723.333333336, again more
  than 1e-9 away.
\<close>

theorem Growth_Rate_misses_tolerance:
  "Growth_Rate
     [\<lparr>Month = ''2023-10'', New_MRR = 100, Churn_MRR = 10, Net_MRR = 90\<rparr>,
      \<lparr>Month = ''2023-11'', New_MRR = 47185941, Churn_MRR = 0, Net_MRR = 47185941\<rparr>] ! 1
     = Num (3518432063870293 / 67108864)
   \<and> growth_formula 47185941 90 = 157286170 / 3
   \<and> \<bar>3518432063870293 / 67108864 - growth_formula 47185941 90\<bar> > 1 / 10 ^ 9
   \<and> growth_formula_fl 47185941 90 = Num (7036864127740587 / 134217728)
   \<and> \<bar>(3518432063870293 / 67108864 :: rat) - 7036864127740587 / 134217728\<bar> > 1 / 10 ^ 9"
proof -
  have q: "round64 (15728647 / 30) = Num (4503601631688567 / 8589934592)"
    by (rule round64_evalI [where e = 19 and n = 4503601631688567]) simp_all
  have s: "round64 (4503593041753975 / 8589934592) = Num (4503593041753975 / 8589934592)"
    by (rule round64_evalI [where e = 18 and n = 9007186083507950]) simp_all
  have r: "round64 (112589826043849375 / 2147483648) = Num (3518432063870293 / 67108864)"
    by (rule round64_evalI [where e = 25 and n = 7036864127740586]) simp_all
  have v: "round64 (15728617 / 30) = Num (9007186083507951 / 17179869184)"
    by (rule round64_evalI [where e = 18 and n = 9007186083507951]) simp_all
  have f: "round64 (225179652087698775 / 4294967296) = Num (7036864127740587 / 134217728)"
    by (rule round64_evalI [where e = 25 and n = 7036864127740587]) simp_all
  have g: "Growth_Rate
     [\<lparr>Month = ''2023-10'', New_MRR = 100, Churn_MRR = 10, Net_MRR = 90\<rparr>,
      \<lparr>Month = ''2023-11'', New_MRR = 47185941, Churn_MRR = 0, Net_MRR = 47185941\<rparr>] ! 1
     = Num (3518432063870293 / 67108864)"
    by (simp add: Growth_Rate_nth q s r)
  have e: "growth_formula 47185941 90 = 157286170 / 3"
    by (simp add: growth_formula_def)
  have h: "growth_formula_fl 47185941 90 = Num (7036864127740587 / 134217728)"
    by (simp add: growth_formula_fl_def v f)
  from g e h show ?thesis by simp
qed

text \<open>
  C4, amended. The growth-rate column has one entry per row and is computed without
  error. For every non-empty revenue frame its entry 0 is NaN. For every index \<open>i > 0\<close>
  whose two net MRR values are below \<open>2\<^sup>5\<^sup>3\<close> in magnitude: when the previous net MRR
  is not zero, the entry is a finite float that matches
  \<open>(netMrr[i] - netMrr[i-1]) / netMrr[i-1] \<times> 100\<close> within
  \<open>2\<^sup>-\<^sup>4\<^sup>4 (|netMrr[i] / netMrr[i-1]| + 1)\<close>, hence within 1e-9 as long as
  \<open>|netMrr[i]| \<le> 17000 |netMrr[i-1]|\<close>; when the previous net MRR is zero, the entry
  is NaN, plus infinity or minus infinity as the net MRR is zero, positive or negative.
\<close>

theorem Growth_Rate_tolerance:
  "length (Growth_Rate df) = length df
   \<and> (df \<noteq> [] \<longrightarrow> Growth_Rate df ! 0 = NaN)
   \<and> (\<forall>i. 0 < i \<and> i < length df
          \<and> \<bar>Net_MRR (df ! i)\<bar> < 2 ^ 53 \<and> \<bar>Net_MRR (df ! (i - 1))\<bar> < 2 ^ 53 \<longrightarrow>
        (Net_MRR (df ! (i - 1)) \<noteq> 0 \<longrightarrow>
           (\<exists>g. Growth_Rate df ! i = Num g
              \<and> \<bar>g - growth_formula (Net_MRR (df ! i)) (Net_MRR (df ! (i - 1)))\<bar>
                  \<le> 2 powi (- 44)
                     * (\<bar>of_int (Net_MRR (df ! i)) / of_int (Net_MRR (df ! (i - 1)))\<bar> + 1)
              \<and> (\<bar>Net_MRR (df ! i)\<bar> \<le> 17000 * \<bar>Net_MRR (df ! (i - 1))\<bar> \<longrightarrow>
                   \<bar>g - growth_formula (Net_MRR (df ! i)) (Net_MRR (df ! (i - 1)))\<bar>
                     \<le> 1 / 10 ^ 9)))
        \<and> (Net_MRR (df ! (i - 1)) = 0 \<longrightarrow>
             Growth_Rate df ! i =
               (if Net_MRR (df ! i) = 0 then NaN
                else if 0 < Net_MRR (df ! i) then PosInf else NegInf)))"
proof -
  have len: "length (Growth_Rate df) = length df"
    by (simp add: Growth_Rate_def length_pct_change)
  have first: "Growth_Rate df ! 0 = NaN" if "df \<noteq> []"
    using that by (simp add: Growth_Rate_def length_pct_change pct_change_nth fl_div_NaN_right)
  have nonzero: "\<exists>g. Growth_Rate df ! i = Num g
              \<and> \<bar>g - growth_formula (Net_MRR (df ! i)) (Net_MRR (df ! (i - 1)))\<bar>
                  \<le> 2 powi (- 44)
                     * (\<bar>of_int (Net_MRR (df ! i)) / of_int (Net_MRR (df ! (i - 1)))\<bar> + 1)
              \<and> (\<bar>Net_MRR (df ! i)\<bar> \<le> 17000 * \<bar>Net_MRR (df ! (i - 1))\<bar> \<longrightarrow>
                   \<bar>g - growth_formula (Net_MRR (df ! i)) (Net_MRR (df ! (i - 1)))\<bar>
                     \<le> 1 / 10 ^ 9)"
    if i: "0 < i" "i < length df"
      and a53: "\<bar>Net_MRR (df ! i)\<bar> < 2 ^ 53" and b53: "\<bar>Net_MRR (df ! (i - 1))\<bar> < 2 ^ 53"
      and b0: "Net_MRR (df ! (i - 1)) \<noteq> 0" for i
  proof -
    define a where "a = Net_MRR (df ! i)"
    define b where "b = Net_MRR (df ! (i - 1))"
    define x :: rat where "x = of_int a / of_int b"
    from growth_value_nonzero [OF b0 a53 b53] Growth_Rate_nth [OF i]
    obtain g where g: "Growth_Rate df ! i = Num g"
      and e: "\<bar>g - growth_formula a b\<bar> \<le> 2 powi (- 44) * (\<bar>x\<bar> + 1)"
      by (auto simp: a_def b_def x_def)
    have small: "\<bar>g - growth_formula a b\<bar> \<le> 1 / 10 ^ 9" if r: "\<bar>a\<bar> \<le> 17000 * \<bar>b\<bar>"
    proof -
      have bpos: "0 < \<bar>of_int b :: rat\<bar>" using b0 by (simp add: b_def)
      from r have "(of_int \<bar>a\<bar> :: rat) \<le> of_int (17000 * \<bar>b\<bar>)" by (simp only: of_int_le_iff)
      then have "\<bar>of_int a :: rat\<bar> \<le> 17000 * \<bar>of_int b\<bar>" by simp
      then have "\<bar>of_int a :: rat\<bar> / \<bar>of_int b\<bar> \<le> 17000"
        using bpos by (simp add: pos_divide_le_eq)
      then have x17: "\<bar>x\<bar> \<le> 17000" by (simp add: x_def)
      have "(2::rat) powi (- 44) * (\<bar>x\<bar> + 1) \<le> 2 powi (- 44) * 17001"
        using x17 by (intro mult_left_mono) simp_all
      also have "\<dots> \<le> 1 / 10 ^ 9" by simp
      finally show ?thesis using e by linarith
    qed
    from g e small show ?thesis unfolding a_def b_def x_def by blast
  qed
  have zero: "Growth_Rate df ! i =
               (if Net_MRR (df ! i) = 0 then NaN
                else if 0 < Net_MRR (df ! i) then PosInf else NegInf)"
    if i: "0 < i" "i < length df"
      and a53: "\<bar>Net_MRR (df ! i)\<bar> < 2 ^ 53" and b0: "Net_MRR (df ! (i - 1)) = 0" for i
    using growth_value_zero [OF a53] Growth_Rate_nth [OF i] b0 by simp
  from len first nonzero zero show ?thesis by blast
qed

text \<open>
  On the mock revenue frame: NaN for October 2023, and for February 2024 (20500 after
  13000) a float within 1e-9 of 750/13. After a month with net MRR zero: plus infinity
  for a positive month, minus infinity for a negative one, NaN for another zero.
\<close>

theorem Growth_Rate_tolerance_witness:
  "revenue_df \<noteq> [] \<and> Growth_Rate revenue_df ! 0 = NaN
   \<and> (\<exists>g. Growth_Rate revenue_df ! 4 = Num g \<and> \<bar>g - 750 / 13\<bar> \<le> 1 / 10 ^ 9)
   \<and> Growth_Rate
         [\<lparr>Month = ''2024-03'', New_MRR = 500, Churn_MRR = 500, Net_MRR = 0\<rparr>,
          \<lparr>Month = ''2024-04'', New_MRR = 700, Churn_MRR = 200, Net_MRR = 500\<rparr>] ! 1 = PosInf
   \<and> Growth_Rate
         [\<lparr>Month = ''2024-03'', New_MRR = 500, Churn_MRR = 500, Net_MRR = 0\<rparr>,
          \<lparr>Month = ''2024-04'', New_MRR = 200, Churn_MRR = 700, Net_MRR = - 500\<rparr>] ! 1 = NegInf
   \<and> Growth_Rate
         [\<lparr>Month = ''2024-03'', New_MRR = 500, Churn_MRR = 500, Net_MRR = 0\<rparr>,
          \<lparr>Month = ''2024-04'', New_MRR = 200, Churn_MRR = 200, Net_MRR = 0\<rparr>] ! 1 = NaN"
proof -
  have ne: "revenue_df \<noteq> []" by (simp add: revenue_df_def)
  have l: "length revenue_df = 5" by (simp add: revenue_df_def)
  have v: "Net_MRR (revenue_df ! 4) = 20500 \<and> Net_MRR (revenue_df ! (4 - 1)) = 13000"
    by (simp add: revenue_df_def)
  have f: "growth_formula 20500 13000 = 750 / 13"
    by (simp add: growth_formula_def)
  from Growth_Rate_tolerance [of revenue_df] ne
  have z: "Growth_Rate revenue_df ! 0 = NaN" by blast
  have "0 < (4::nat) \<and> 4 < length revenue_df
        \<and> \<bar>Net_MRR (revenue_df ! 4)\<bar> < 2 ^ 53 \<and> \<bar>Net_MRR (revenue_df ! (4 - 1))\<bar> < 2 ^ 53"
    using l v by simp
  moreover have "Net_MRR (revenue_df ! (4 - 1)) \<noteq> 0"
    and "\<bar>Net_MRR (revenue_df ! 4)\<bar> \<le> 17000 * \<bar>Net_MRR (revenue_df ! (4 - 1))\<bar>"
    using v by simp_all
  ultimately obtain g where "Growth_Rate revenue_df ! 4 = Num g"
    and "\<bar>g - growth_formula (Net_MRR (revenue_df ! 4)) (Net_MRR (revenue_df ! (4 - 1)))\<bar>
           \<le> 1 / 10 ^ 9"
    using Growth_Rate_tolerance [of revenue_df] by blast
  then have w: "\<exists>g. Growth_Rate revenue_df ! 4 = Num g \<and> \<bar>g - 750 / 13\<bar> \<le> 1 / 10 ^ 9"
    unfolding conjunct1 [OF v] conjunct2 [OF v] f by blast
  have p: "Growth_Rate
         [\<lparr>Month = ''2024-03'', New_MRR = 500, Churn_MRR = 500, Net_MRR = 0\<rparr>,
          \<lparr>Month = ''2024-04'', New_MRR = 700, Churn_MRR = 200, Net_MRR = 500\<rparr>] ! 1 = PosInf"
    using Growth_Rate_tolerance
      [of "[\<lparr>Month = ''2024-03'', New_MRR = 500, Churn_MRR = 500, Net_MRR = 0\<rparr>,
            \<lparr>Month = ''2024-04'', New_MRR = 700, Churn_MRR = 200, Net_MRR = 500\<rparr>]"]
    by simp
  have n: "Growth_Rate
         [\<lparr>Month = ''2024-03'', New_MRR = 500, Churn_MRR = 500, Net_MRR = 0\<rparr>,
          \<lparr>Month = ''2024-04'', New_MRR = 200, Churn_MRR = 700, Net_MRR = - 500\<rparr>] ! 1 = NegInf"
    using Growth_Rate_tolerance
      [of "[\<lparr>Month = ''2024-03'', New_MRR = 500, Churn_MRR = 500, Net_MRR = 0\<rparr>,
            \<lparr>Month = ''2024-04'', New_MRR = 200, Churn_MRR = 700, Net_MRR = - 500\<rparr>]"]
    by simp
  have u: "Growth_Rate
         [\<lparr>Month = ''2024-03'', New_MRR = 500, Churn_MRR = 500, Net_MRR = 0\<rparr>,
          \<lparr>Month = ''2024-04'', New_MRR = 200, Churn_MRR = 200, Net_MRR = 0\<rparr>] ! 1 = NaN"
    using Growth_Rate_tolerance
      [of "[\<lparr>Month = ''2024-03'', New_MRR = 500, Churn_MRR = 500, Net_MRR = 0\<rparr>,
            \<lparr>Month = ''2024-04'', New_MRR = 200, Churn_MRR = 200, Net_MRR = 0\<rparr>]"]
    by simp
  from ne z w p n u show ?thesis by blast
qed

section \<open>The fixtures\<close>

text \<open>
  C7. The threshold table sends a health score of at least 75 to Low, one from 50 to 74
  to Medium and one below 50 to High; 45 is High and 85 is Low; and every row of the
  customer-health fixture carries the risk level the table derives from its health score.
\<close>

theorem health_fixture_matches_thresholds:
  "(75 \<le> h \<longrightarrow> classifyHealth h = ''Low'')
   \<and> (50 \<le> h \<and> h \<le> 74 \<longrightarrow> classifyHealth h = ''Medium'')
   \<and> (h < 50 \<longrightarrow> classifyHealth h = ''High'')
   \<and> classifyHealth 45 = ''High'' \<and> classifyHealth 85 = ''Low''
   \<and> (\<forall>r \<in> set health_df. Risk_Level r = classifyHealth (Health_Score r))"
  by (simp add: classifyHealth_def health_df_def)

text \<open>One score in each band, and the fixture's third row (DataViz Inc, 45, High).\<close>

theorem health_fixture_matches_thresholds_witness:
  "classifyHealth 90 = ''Low'' \<and> classifyHealth 72 = ''Medium'' \<and> classifyHealth 10 = ''High''
   \<and> health_df ! 2 \<in> set health_df
   \<and> Health_Score (health_df ! 2) = 45 \<and> Risk_Level (health_df ! 2) = ''High''"
proof -
  have m: "health_df ! 2 \<in> set health_df" by (simp add: health_df_def)
  have h: "Health_Score (health_df ! 2) = 45" by (simp add: health_df_def)
  from m h health_fixture_matches_thresholds [of 90] health_fixture_matches_thresholds [of 72]
    health_fixture_matches_thresholds [of 10]
  show ?thesis by simp
qed

text \<open>
  C8. Every revenue row the program holds satisfies net MRR = new MRR - churn MRR: the
  rows of the fixture are the only revenue rows there are, and each of the five
  satisfies it.
\<close>

theorem revenue_fixture_invariant:
  "\<forall>r \<in> set revenue_df. net_mrr_invariant r"
  by (simp add: revenue_df_def net_mrr_invariant_def)

text \<open>The fixture's fourth row: 15000 new, 2000 churned, 13000 net.\<close>

theorem revenue_fixture_invariant_witness:
  "revenue_df ! 3 \<in> set revenue_df \<and> New_MRR (revenue_df ! 3) = 15000
   \<and> Churn_MRR (revenue_df ! 3) = 2000 \<and> Net_MRR (revenue_df ! 3) = 13000"
proof -
  have m: "revenue_df ! 3 \<in> set revenue_df" by (simp add: revenue_df_def)
  have v: "New_MRR (revenue_df ! 3) = 15000 \<and> Churn_MRR (revenue_df ! 3) = 2000"
    by (simp add: revenue_df_def)
  from m v revenue_fixture_invariant show ?thesis
    by (auto simp: net_mrr_invariant_def)
qed

end
